theory Spec2Isabelle
  imports Complex_Main
begin

section \<open>JavaScript values and the drawing backend\<close>

text \<open>
  The module \<^verbatim>\<open>src/js/plugins/raphaelLineTypeBase.js\<close> is a class whose methods read and
  write the fields of \<^verbatim>\<open>this\<close> and the attributes of Raphael elements. Elements are
  objects with identity: the same dot is reachable through \<^verbatim>\<open>groupDots\<close> and through the
  cached \<^verbatim>\<open>pivotGroupDots\<close>. The embedding therefore keeps an explicit store from element
  references to attribute bags, and arrays hold references.
\<close>

datatype js_error = TypeError

type_synonym number = real

datatype attr_value = Num number | Str string | Undefined

type_synonym attrs = "string \<rightharpoonup> attr_value"

type_synonym ref = nat

text \<open>\<^verbatim>\<open>arr[i]\<close> on an array: \<^verbatim>\<open>undefined\<close> (here \<open>None\<close>) out of range, never an error.\<close>

definition js_nth :: "'a list \<Rightarrow> nat \<Rightarrow> 'a option" where
  "js_nth arr i = (if i < length arr then Some (arr ! i) else None)"

record 'n position =
  left :: 'n
  top' :: 'n

record dimension =
  width :: number
  height :: number

record bound =
  dimension :: dimension
  position :: "number position"

text \<open>The hover payload \<^verbatim>\<open>{groupIndex, index}\<close> of \<^verbatim>\<open>showAnimation\<close> and \<^verbatim>\<open>hideAnimation\<close>.\<close>

record payload =
  groupIndex :: nat
  index :: nat

text \<open>
  The Raphael paper: the attribute bag of every element, and the next unused reference.
\<close>

record paper =
  elems :: "ref \<Rightarrow> attrs"
  next_ref :: ref

text \<open>
  Modelled from the spec: the drawing backend (Raphael, a third-party library) is not part
  of the source. \<^verbatim>\<open>paper.circle(x, y, r)\<close> (the spec's \<^verbatim>\<open>createCircle\<close>) creates a new
  element carrying its centre and radius; \<^verbatim>\<open>element.attr(style)\<close> (the spec's
  \<^verbatim>\<open>setAttributes\<close>) writes every field of \<^verbatim>\<open>style\<close> into the element's attributes and
  leaves the other attributes as they are.
\<close>

definition circle :: "number \<Rightarrow> number \<Rightarrow> number \<Rightarrow> paper \<Rightarrow> ref \<times> paper" where
  "circle x y rad p =
     (next_ref p,
      p\<lparr>elems := (elems p)(next_ref p := [''cx'' \<mapsto> Num x, ''cy'' \<mapsto> Num y, ''r'' \<mapsto> Num rad]),
        next_ref := Suc (next_ref p)\<rparr>)"

definition attr :: "ref \<Rightarrow> attrs \<Rightarrow> paper \<Rightarrow> paper" where
  "attr el style p = p\<lparr>elems := (elems p)(el := elems p el ++ style)\<rparr>"

text \<open>
  Modelled from the spec: \<^verbatim>\<open>tui.util.extend(target, source)\<close> copies every own field of
  \<^verbatim>\<open>source\<close> into \<^verbatim>\<open>target\<close> (``override-or-add semantics'').
\<close>

definition util_extend :: "attrs \<Rightarrow> attrs \<Rightarrow> attrs" where
  "util_extend target source = target ++ source"

text \<open>
  Modelled from the spec: \<^verbatim>\<open>tui.util.forEach\<close> / \<^verbatim>\<open>tui.util.forEachArray\<close> call the
  iteratee on every element with its index, in index order; an exception raised by the
  iteratee ends the loop. \<^verbatim>\<open>tui.util.map\<close> collects the iteratee's results in order.
\<close>

fun forEachFrom :: "('a \<Rightarrow> nat \<Rightarrow> 's \<Rightarrow> js_error + 's) \<Rightarrow> 'a list \<Rightarrow> nat \<Rightarrow> 's \<Rightarrow> js_error + 's" where
  "forEachFrom f [] k s = Inr s"
| "forEachFrom f (x # xs) k s =
     (case f x k s of Inl e \<Rightarrow> Inl e | Inr s' \<Rightarrow> forEachFrom f xs (Suc k) s')"

definition util_forEach :: "('a \<Rightarrow> nat \<Rightarrow> 's \<Rightarrow> js_error + 's) \<Rightarrow> 'a list \<Rightarrow> 's \<Rightarrow> js_error + 's" where
  "util_forEach f arr s = forEachFrom f arr 0 s"

fun mapFrom :: "('a \<Rightarrow> nat \<Rightarrow> 's \<Rightarrow> 'b \<times> 's) \<Rightarrow> 'a list \<Rightarrow> nat \<Rightarrow> 's \<Rightarrow> 'b list \<times> 's" where
  "mapFrom f [] k s = ([], s)"
| "mapFrom f (x # xs) k s =
     (case f x k s of (y, s') \<Rightarrow> (case mapFrom f xs (Suc k) s' of (ys, s'') \<Rightarrow> (y # ys, s'')))"

definition util_map :: "('a \<Rightarrow> nat \<Rightarrow> 's \<Rightarrow> 'b \<times> 's) \<Rightarrow> 'a list \<Rightarrow> 's \<Rightarrow> 'b list \<times> 's" where
  "util_map f arr s = mapFrom f arr 0 s"

text \<open>
  Modelled from the spec: \<^verbatim>\<open>tui.util.pivot\<close>, the index transpose of a two-dimensional
  array (``swaps the two index axes'', ``all series at this x-position as one unit''):
  column \<open>i\<close> of the result lists, in group order, the \<open>i\<close>-th element of every row that
  has one.
\<close>

definition util_pivot :: "'a list list \<Rightarrow> 'a list list" where
  "util_pivot arr2d =
     map (\<lambda>i. map (\<lambda>arr. arr ! i) (filter (\<lambda>arr. i < length arr) arr2d))
       [0 ..< foldr (\<lambda>arr. max (length arr)) arr2d 0]"

section \<open>The instance state\<close>

text \<open>
  The fields of \<^verbatim>\<open>this\<close> that the methods use, after a subclass's render pass has set
  \<^verbatim>\<open>groupDots\<close>, \<^verbatim>\<open>outDotStyle\<close> and \<^verbatim>\<open>tooltipLine\<close>. \<^verbatim>\<open>pivotGroupDots\<close> is \<open>None\<close> while
  the field is unset. The paper is part of the state because the methods change the
  attributes of its elements.
\<close>

record state =
  groupDots :: "ref list list"
  pivotGroupDots :: "ref list list option"
  outDotStyle :: attrs
  tooltipLine :: ref
  paper :: paper

definition DEFAULT_DOT_WIDTH :: number where
  "DEFAULT_DOT_WIDTH = 3"

definition HOVER_DOT_WIDTH :: number where
  "HOVER_DOT_WIDTH = 4"

section \<open>The methods of RaphaelLineTypeBase\<close>

text \<open>
  Each method keeps its name, without the leading underscore of the private ones; the
  fields \<^verbatim>\<open>top\<close> and \<^verbatim>\<open>end\<close> are written \<open>top'\<close> and \<open>end'\<close>. A method that can
  raise returns \<open>Inl TypeError\<close> where the JavaScript would throw.

  \<^verbatim>\<open>raphaelRenderUtil.makeLinePath\<close> lives in another file; every method that calls it
  takes it as the parameter \<open>util_makeLinePath\<close>, a function from two positions to a
  path. \<^verbatim>\<open>makeLinePath\<close> and \<^verbatim>\<open>_getCenter\<close>, which do not touch \<^verbatim>\<open>this\<close>, still take
  the instance state and return it, so that leaving it alone is a statement about them.
  \<^verbatim>\<open>_renderTooltipLine\<close>, \<^verbatim>\<open>animateLine\<close> and \<^verbatim>\<open>renderItems\<close> are not embedded.
\<close>

record 'p linePaths =
  start :: 'p
  end' :: 'p

definition makeLinePath ::
  "(number position \<Rightarrow> number position \<Rightarrow> 'p) \<Rightarrow> number position \<Rightarrow> number position
     \<Rightarrow> state \<Rightarrow> 'p linePaths \<times> state" where
  "makeLinePath util_makeLinePath fromPos toPos s =
     (let startLinePath = util_makeLinePath fromPos fromPos;
          endLinePath = util_makeLinePath fromPos toPos
      in (\<lparr>start = startLinePath, end' = endLinePath\<rparr>, s))"

text \<open>
  Modelled from the spec: \<^verbatim>\<open>raphaelRenderUtil.makeLinePath(fromPos, toPos)\<close>, which is in
  another file of the repository. It gives the path descriptor of the straight segment
  that starts at its first argument and ends at its second (the spec's
  \<^verbatim>\<open>fromPos \<rightarrow> toPos\<close>), and has no side effect. A descriptor is kept as its two
  endpoints; its length is the distance between them.
\<close>

datatype linePath = LinePath (pathFrom: "number position") (pathTo: "number position")

definition raphaelRenderUtil_makeLinePath :: "number position \<Rightarrow> number position \<Rightarrow> linePath" where
  "raphaelRenderUtil_makeLinePath fromPos toPos = LinePath fromPos toPos"

definition pathLength :: "linePath \<Rightarrow> real" where
  "pathLength p =
     sqrt ((left (pathTo p) - left (pathFrom p)) ^ 2 + (top' (pathTo p) - top' (pathFrom p)) ^ 2)"

definition makeBorderStyle :: "string option \<Rightarrow> number \<Rightarrow> attrs option" where
  "makeBorderStyle borderColor opacity =
     (case borderColor of
        None \<Rightarrow> None
      | Some c \<Rightarrow>
          if c = [] then None
          else Some [''stroke'' \<mapsto> Str c, ''stroke-width'' \<mapsto> Num 1, ''stroke-opacity'' \<mapsto> Num opacity])"

definition makeOutDotStyle :: "number \<Rightarrow> attrs option \<Rightarrow> attrs" where
  "makeOutDotStyle opacity borderStyle =
     (let outDotStyle = [''fill-opacity'' \<mapsto> Num opacity, ''stroke-opacity'' \<mapsto> Num 0,
                         ''r'' \<mapsto> Num DEFAULT_DOT_WIDTH]
      in case borderStyle of
           None \<Rightarrow> outDotStyle
         | Some b \<Rightarrow> util_extend outDotStyle b)"

definition renderDot :: "number position \<Rightarrow> attr_value \<Rightarrow> paper \<Rightarrow> ref \<times> paper" where
  "renderDot pos color p =
     (case circle (left pos) (top' pos) DEFAULT_DOT_WIDTH p of
        (dot, p') \<Rightarrow>
          (let dotStyle = [''fill'' \<mapsto> color, ''fill-opacity'' \<mapsto> Num 0, ''stroke-opacity'' \<mapsto> Num 0]
           in (dot, attr dot dotStyle p')))"

definition renderDots :: "number position list list \<Rightarrow> string list \<Rightarrow> paper \<Rightarrow> ref list list \<times> paper" where
  "renderDots groupPositions colors p =
     util_map (\<lambda>positions gIdx.
        let color = (case js_nth colors gIdx of None \<Rightarrow> Undefined | Some c \<Rightarrow> Str c)
        in util_map (\<lambda>pos _. renderDot pos color) positions)
       groupPositions p"

definition getCenter ::
  "('n::{numeral,inverse}) position \<Rightarrow> 'n position \<Rightarrow> state \<Rightarrow> 'n position \<times> state" where
  "getCenter fromPos toPos s =
     (\<lparr>left = (left fromPos + left toPos) / 2, top' = (top' fromPos + top' toPos) / 2\<rparr>, s)"

text \<open>
  Modelled from the spec: the backend's hover binding. \<^verbatim>\<open>dot.hover(f_in, f_out)\<close> adds a pair
  of handlers to the element; a hover-enter on an element runs the enter handlers bound to
  it, in binding order, and a hover-exit the exit handlers. A handler acts on the caller's
  world \<open>'w\<close>, which the module never looks into.
\<close>

type_synonym 'w handler = "'w \<Rightarrow> 'w"

type_synonym 'w hovers = "ref \<Rightarrow> ('w handler \<times> 'w handler) list"

definition hover :: "ref \<Rightarrow> 'w handler \<Rightarrow> 'w handler \<Rightarrow> 'w hovers \<Rightarrow> 'w hovers" where
  "hover el f_in f_out hs = hs(el := hs el @ [(f_in, f_out)])"

definition hoverEnter :: "'w hovers \<Rightarrow> ref \<Rightarrow> 'w \<Rightarrow> 'w" where
  "hoverEnter hs el w = fold (\<lambda>h. fst h) (hs el) w"

definition hoverExit :: "'w hovers \<Rightarrow> ref \<Rightarrow> 'w \<Rightarrow> 'w" where
  "hoverExit hs el w = fold (\<lambda>h. snd h) (hs el) w"

text \<open>
  \<^verbatim>\<open>_bindHoverEvent\<close>: the enter closure calls \<^verbatim>\<open>inCallback(position, index, groupIndex)\<close>,
  the exit closure \<^verbatim>\<open>outCallback()\<close>. The position is \<open>None\<close> when the caller read it
  out of range.
\<close>

definition bindHoverEvent ::
  "ref \<Rightarrow> number position option \<Rightarrow> nat \<Rightarrow> nat
     \<Rightarrow> (number position option \<Rightarrow> nat \<Rightarrow> nat \<Rightarrow> 'w handler) \<Rightarrow> 'w handler
     \<Rightarrow> 'w hovers \<Rightarrow> 'w hovers" where
  "bindHoverEvent dot pos gIdx idx inCallback outCallback hs =
     hover dot (\<lambda>w. inCallback pos idx gIdx w) (\<lambda>w. outCallback w) hs"

text \<open>
  \<^verbatim>\<open>attachEvent\<close>: \<^verbatim>\<open>groupPositions[groupIndex][index]\<close> raises a TypeError when
  \<^verbatim>\<open>groupPositions[groupIndex]\<close> is undefined. The parameter \<^verbatim>\<open>outDotStyle\<close> is unused.
\<close>

definition attachEvent ::
  "ref list list \<Rightarrow> number position list list \<Rightarrow> attrs
     \<Rightarrow> (number position option \<Rightarrow> nat \<Rightarrow> nat \<Rightarrow> 'w handler) \<Rightarrow> 'w handler
     \<Rightarrow> 'w hovers \<Rightarrow> js_error + 'w hovers" where
  "attachEvent groupDots_arg groupPositions outDotStyle_arg inCallback outCallback hs =
     util_forEach (\<lambda>dots gIdx.
        util_forEach (\<lambda>dot idx hs'.
           case js_nth groupPositions gIdx of
             None \<Rightarrow> Inl TypeError
           | Some positions \<Rightarrow>
               Inr (bindHoverEvent dot (js_nth positions idx) gIdx idx inCallback outCallback hs'))
          dots)
       groupDots_arg hs"

definition showDot :: "ref \<Rightarrow> state \<Rightarrow> state" where
  "showDot dot s =
     s\<lparr>paper := attr dot [''fill-opacity'' \<mapsto> Num 1, ''stroke-opacity'' \<mapsto> Num 0.3,
                           ''stroke-width'' \<mapsto> Num 2, ''r'' \<mapsto> Num HOVER_DOT_WIDTH] (paper s)\<rparr>"

text \<open>
  \<^verbatim>\<open>showAnimation\<close>: \<^verbatim>\<open>this.groupDots[groupIndex][index]\<close> raises a TypeError when the
  group is undefined, and \<^verbatim>\<open>_showDot(undefined)\<close> raises one when the dot is.
\<close>

definition showAnimation :: "payload \<Rightarrow> state \<Rightarrow> js_error + state" where
  "showAnimation data s =
     (let idx = groupIndex data;
          gIdx = index data
      in case js_nth (groupDots s) gIdx of
           None \<Rightarrow> Inl TypeError
         | Some dots \<Rightarrow>
             (case js_nth dots idx of
                None \<Rightarrow> Inl TypeError
              | Some dot \<Rightarrow> Inr (showDot dot s)))"

definition getPivotGroupDots :: "state \<Rightarrow> ref list list \<times> state" where
  "getPivotGroupDots s =
     (case pivotGroupDots s of
        None \<Rightarrow> (let p = util_pivot (groupDots s) in (p, s\<lparr>pivotGroupDots := Some p\<rparr>))
      | Some p \<Rightarrow> (p, s))"

text \<open>
  \<^verbatim>\<open>_showGroupDots\<close>: \<^verbatim>\<open>forEachArray(dots[index], ...)\<close> reads the length of
  \<^verbatim>\<open>dots[index]\<close>, a TypeError when the column is undefined.
\<close>

definition showGroupDots :: "nat \<Rightarrow> state \<Rightarrow> js_error + state" where
  "showGroupDots idx s =
     (case getPivotGroupDots s of
        (dots, s') \<Rightarrow>
          (case js_nth dots idx of
             None \<Rightarrow> Inl TypeError
           | Some column \<Rightarrow> util_forEach (\<lambda>dot _ t. Inr (showDot dot t)) column s'))"

definition showTooltipLine ::
  "(number position \<Rightarrow> number position \<Rightarrow> string) \<Rightarrow> bound \<Rightarrow> state \<Rightarrow> state" where
  "showTooltipLine util_makeLinePath bnd s =
     (let linePath = util_makeLinePath
            \<lparr>left = left (position bnd), top' = height (dimension bnd)\<rparr>
            \<lparr>left = left (position bnd), top' = top' (position bnd)\<rparr>
      in s\<lparr>paper := attr (tooltipLine s)
                        [''path'' \<mapsto> Str linePath, ''stroke'' \<mapsto> Str ''#999'',
                         ''stroke-opacity'' \<mapsto> Num 1] (paper s)\<rparr>)"

definition showGroupAnimation ::
  "(number position \<Rightarrow> number position \<Rightarrow> string) \<Rightarrow> nat \<Rightarrow> bound \<Rightarrow> state \<Rightarrow> js_error + state" where
  "showGroupAnimation util_makeLinePath idx bnd s =
     (case showGroupDots idx s of
        Inl e \<Rightarrow> Inl e
      | Inr s' \<Rightarrow> Inr (showTooltipLine util_makeLinePath bnd s'))"

definition hideDot :: "ref \<Rightarrow> state \<Rightarrow> state" where
  "hideDot dot s = s\<lparr>paper := attr dot (outDotStyle s) (paper s)\<rparr>"

text \<open>
  \<^verbatim>\<open>hideAnimation\<close>: the guard \<^verbatim>\<open>if (dot)\<close> skips an undefined dot; reading
  \<^verbatim>\<open>this.groupDots[groupIndex][index]\<close> still raises a TypeError when the group is
  undefined.
\<close>

definition hideAnimation :: "payload \<Rightarrow> state \<Rightarrow> js_error + state" where
  "hideAnimation data s =
     (let idx = groupIndex data;
          gIdx = index data
      in case js_nth (groupDots s) gIdx of
           None \<Rightarrow> Inl TypeError
         | Some dots \<Rightarrow>
             (case js_nth dots idx of
                None \<Rightarrow> Inr s
              | Some dot \<Rightarrow> Inr (hideDot dot s)))"

definition hideGroupDots :: "nat \<Rightarrow> state \<Rightarrow> js_error + state" where
  "hideGroupDots idx s =
     (case getPivotGroupDots s of
        (dots, s') \<Rightarrow>
          (case js_nth dots idx of
             None \<Rightarrow> Inl TypeError
           | Some column \<Rightarrow> util_forEach (\<lambda>dot _ t. Inr (hideDot dot t)) column s'))"

definition hideTooltipLine :: "state \<Rightarrow> state" where
  "hideTooltipLine s = s\<lparr>paper := attr (tooltipLine s) [''stroke-opacity'' \<mapsto> Num 0] (paper s)\<rparr>"

definition hideGroupAnimation :: "nat \<Rightarrow> state \<Rightarrow> js_error + state" where
  "hideGroupAnimation idx s =
     (case hideGroupDots idx s of
        Inl e \<Rightarrow> Inl e
      | Inr s' \<Rightarrow> Inr (hideTooltipLine s'))"

section \<open>Notions used in the statements\<close>

text \<open>Show and then hide with the same payload, the second call on the state the first left.\<close>

definition showThenHide :: "payload \<Rightarrow> state \<Rightarrow> js_error + state" where
  "showThenHide data s =
     (case showAnimation data s of Inl e \<Rightarrow> Inl e | Inr s' \<Rightarrow> hideAnimation data s')"

text \<open>The cache is unset, or it holds the transpose of the current \<^verbatim>\<open>groupDots\<close>.\<close>

definition pivotConsistent :: "state \<Rightarrow> bool" where
  "pivotConsistent s \<longleftrightarrow>
     pivotGroupDots s = None \<or> pivotGroupDots s = Some (util_pivot (groupDots s))"

text \<open>
  Two arrays of arrays have the same shape: the same outer length and, group by group, the
  same inner length.
\<close>

definition congruent :: "'a list list \<Rightarrow> 'b list list \<Rightarrow> bool" where
  "congruent xss yss \<longleftrightarrow> map length xss = map length yss"

text \<open>The attributes \<^verbatim>\<open>renderDot\<close> leaves on a dot drawn at a position with a colour.\<close>

definition renderedDotAttrs :: "number position \<Rightarrow> attr_value \<Rightarrow> attrs" where
  "renderedDotAttrs pos color =
     [''cx'' \<mapsto> Num (left pos), ''cy'' \<mapsto> Num (top' pos), ''r'' \<mapsto> Num 3,
      ''fill'' \<mapsto> color, ''fill-opacity'' \<mapsto> Num 0, ''stroke-opacity'' \<mapsto> Num 0]"

subsection \<open>Concrete instances\<close>

definition blank_paper :: paper where
  "blank_paper = \<lparr>elems = (\<lambda>_. Map.empty), next_ref = 0\<rparr>"

definition pt :: "number \<Rightarrow> number \<Rightarrow> number position" where
  "pt x y = \<lparr>left = x, top' = y\<rparr>"

text \<open>
  An instance after a render pass: the dots come from \<^verbatim>\<open>renderDots\<close> on a blank paper, the
  tooltip line is the next element, the out style is \<^verbatim>\<open>makeOutDotStyle(0, undefined)\<close> and
  no pivot is cached.
\<close>

definition render_pass :: "number position list list \<Rightarrow> string list \<Rightarrow> state" where
  "render_pass groupPositions colors =
     (case renderDots groupPositions colors blank_paper of
        (dots, p) \<Rightarrow>
          \<lparr>groupDots = dots, pivotGroupDots = None, outDotStyle = makeOutDotStyle 0 None,
           tooltipLine = next_ref p,
           paper = (attr (next_ref p)
                      [''path'' \<mapsto> Str ''M10 60L10 0'', ''stroke'' \<mapsto> Str ''transparent'',
                       ''stroke-width'' \<mapsto> Num 1] p)\<lparr>next_ref := Suc (next_ref p)\<rparr>\<rparr>)"

definition rendered_state :: state where
  "rendered_state =
     render_pass [[pt 10 50, pt 20 40, pt 30 30], [pt 10 45, pt 20 35, pt 30 25]]
       [''#f00'', ''#00f'']"

definition ragged_positions :: "number position list list" where
  "ragged_positions = [[pt 10 50, pt 20 40], [], [pt 10 45, pt 20 35, pt 30 25]]"

definition ragged_state :: state where
  "ragged_state = render_pass ragged_positions [''#f00'', ''#0f0'', ''#00f'']"

text \<open>
  The instance \<open>rendered_state\<close> after its pivot has been read once and \<^verbatim>\<open>groupDots\<close> has
  then been assigned a new table.
\<close>

definition replaced_state :: state where
  "replaced_state = (snd (getPivotGroupDots rendered_state))\<lparr>groupDots := [[7], [8]]\<rparr>"

text \<open>
  The instance \<open>rendered_state\<close> after \<^verbatim>\<open>showGroupAnimation(1, bound)\<close>: the dots of column
  1 are in the hover style, the tooltip line is visible and the pivot is cached.
\<close>

definition hover_bound :: bound where
  "hover_bound = \<lparr>dimension = \<lparr>width = 100, height = 60\<rparr>, position = pt 20 0\<rparr>"

definition shown_state :: state where
  "shown_state =
     (case showGroupAnimation (\<lambda>fromPos toPos. ''M20 60L20 0'') 1 hover_bound rendered_state of
        Inl e \<Rightarrow> rendered_state
      | Inr s \<Rightarrow> s)"

text \<open>
  A second render pass on the instance \<open>rendered_state\<close> whose pivot has been read once:
  \<^verbatim>\<open>renderDots\<close> draws two groups of one point on the same paper and \<^verbatim>\<open>groupDots\<close> is
  assigned the new table. Then the new dot of group 0 is hovered:
  \<^verbatim>\<open>showAnimation({groupIndex: 0, index: 0})\<close>.
\<close>

definition rerendered_state :: state where
  "rerendered_state =
     (let s = snd (getPivotGroupDots rendered_state)
      in case renderDots [[pt 10 50], [pt 10 45]] [''#f00'', ''#00f''] (paper s) of
           (dots, p) \<Rightarrow> s\<lparr>groupDots := dots, paper := p\<rparr>)"

definition hovered_state :: state where
  "hovered_state =
     (case showAnimation \<lparr>groupIndex = 0, index = 0\<rparr> rerendered_state of
        Inl e \<Rightarrow> rerendered_state
      | Inr s \<Rightarrow> s)"

text \<open>A caller's world that records the callback invocations it receives, in order.\<close>

datatype call = InCall "number position option" nat nat | OutCall

definition logIn :: "number position option \<Rightarrow> nat \<Rightarrow> nat \<Rightarrow> call list handler" where
  "logIn pos idx gIdx w = w @ [InCall pos idx gIdx]"

definition logOut :: "call list handler" where
  "logOut w = w @ [OutCall]"

section \<open>Auxiliary lemmas\<close>

subsection \<open>Loops of the utility library\<close>

lemma util_map_eq: "util_map f arr = mapFrom f arr 0"
  by (rule ext) (simp add: util_map_def)

lemma util_forEach_eq: "util_forEach f arr = forEachFrom f arr 0"
  by (rule ext) (simp add: util_forEach_def)

lemma forEachFrom_total:
  "forEachFrom (\<lambda>x _ t. Inr (f x t)) xs k s = Inr (fold f xs s)"
  by (induction xs arbitrary: k s) simp_all

lemma util_pivot_column:
  assumes "idx < length (util_pivot arr2d)"
  shows "util_pivot arr2d ! idx = map (\<lambda>arr. arr ! idx) (filter (\<lambda>arr. idx < length arr) arr2d)"
  using assms by (simp add: util_pivot_def)

lemma congruent_shape:
  assumes "congruent xss yss"
  shows "length xss = length yss" and "\<And>g. g < length xss \<Longrightarrow> length (xss ! g) = length (yss ! g)"
proof -
  have m: "map length xss = map length yss"
    using assms by (simp add: congruent_def)
  show l: "length xss = length yss"
    using m by (rule map_eq_imp_length_eq)
  fix g assume g: "g < length xss"
  have "map length xss ! g = map length yss ! g"
    using m by simp
  then show "length (xss ! g) = length (yss ! g)"
    using g l by simp
qed

subsection \<open>Attribute bags\<close>

lemma map_add_twice: "(m ++ n) ++ n = m ++ n"
  by (rule ext) (simp add: map_add_def split: option.splits)

lemma show_then_out:
  "(m ++ [''fill-opacity'' \<mapsto> Num 1, ''stroke-opacity'' \<mapsto> Num 0.3,
          ''stroke-width'' \<mapsto> Num 2, ''r'' \<mapsto> Num 4]) ++ makeOutDotStyle opacity borderStyle
   = m(''stroke-width'' \<mapsto> Num 2) ++ makeOutDotStyle opacity borderStyle"
  by (rule ext)
     (simp add: makeOutDotStyle_def util_extend_def map_add_def Let_def split: option.splits)

lemma override_fixpoint:
  "(m(k \<mapsto> v) ++ out = m) \<longleftrightarrow>
     ((\<forall>x y. out x = Some y \<longrightarrow> m x = Some y) \<and> (out k = None \<longrightarrow> m k = Some v))"
  (is "?L \<longleftrightarrow> ?R")
proof
  assume L: ?L
  show ?R
  proof (intro conjI allI impI)
    fix x y assume "out x = Some y"
    then have "(m(k \<mapsto> v) ++ out) x = Some y" by (simp add: map_add_def)
    with L show "m x = Some y" by simp
  next
    assume "out k = None"
    then have "(m(k \<mapsto> v) ++ out) k = Some v" by (simp add: map_add_def)
    with L show "m k = Some v" by simp
  qed
next
  assume R: ?R
  show ?L
  proof (rule ext)
    fix x
    show "(m(k \<mapsto> v) ++ out) x = m x"
      using R by (cases "out x") (auto simp: map_add_def)
  qed
qed

subsection \<open>Showing and hiding dots\<close>

lemmas show_hide_defs = showAnimation_def hideAnimation_def showDot_def hideDot_def attr_def
  js_nth_def HOVER_DOT_WIDTH_def Let_def

lemma fold_hideDot_fields:
  "groupDots (fold hideDot col s) = groupDots s
   \<and> pivotGroupDots (fold hideDot col s) = pivotGroupDots s
   \<and> outDotStyle (fold hideDot col s) = outDotStyle s
   \<and> tooltipLine (fold hideDot col s) = tooltipLine s"
  by (induction col arbitrary: s) (simp_all add: hideDot_def)

lemma fold_showDot_fields:
  "groupDots (fold showDot col s) = groupDots s
   \<and> pivotGroupDots (fold showDot col s) = pivotGroupDots s
   \<and> outDotStyle (fold showDot col s) = outDotStyle s
   \<and> tooltipLine (fold showDot col s) = tooltipLine s"
  by (induction col arbitrary: s) (simp_all add: showDot_def)

lemma fold_hideDot_elems:
  "elems (paper (fold hideDot col s)) el =
     (if el \<in> set col then elems (paper s) el ++ outDotStyle s else elems (paper s) el)"
proof (induction col arbitrary: s)
  case Nil
  show ?case by simp
next
  case (Cons d col)
  have out: "outDotStyle (hideDot d s) = outDotStyle s"
    by (simp add: hideDot_def)
  have here: "elems (paper (hideDot d s)) el =
      (if el = d then elems (paper s) el ++ outDotStyle s else elems (paper s) el)"
    by (simp add: hideDot_def attr_def)
  show ?case
    using Cons.IH[of "hideDot d s"] out here by (cases "el = d") (auto simp: map_add_twice)
qed

lemma getPivotGroupDots_fields:
  "groupDots (snd (getPivotGroupDots s)) = groupDots s
   \<and> outDotStyle (snd (getPivotGroupDots s)) = outDotStyle s
   \<and> tooltipLine (snd (getPivotGroupDots s)) = tooltipLine s
   \<and> paper (snd (getPivotGroupDots s)) = paper s
   \<and> pivotGroupDots (snd (getPivotGroupDots s)) = Some (fst (getPivotGroupDots s))"
  by (simp add: getPivotGroupDots_def Let_def split: option.splits)

lemma getPivotGroupDots_consistent:
  assumes "pivotConsistent s"
  shows "fst (getPivotGroupDots s) = util_pivot (groupDots s)"
  using assms by (auto simp: pivotConsistent_def getPivotGroupDots_def Let_def)

lemma hideGroupDots_run:
  "hideGroupDots idx s =
     (case js_nth (fst (getPivotGroupDots s)) idx of
        None \<Rightarrow> Inl TypeError
      | Some column \<Rightarrow> Inr (fold hideDot column (snd (getPivotGroupDots s))))"
  by (simp add: hideGroupDots_def util_forEach_def forEachFrom_total split: prod.splits option.splits)

lemma showGroupDots_run:
  "showGroupDots idx s =
     (case js_nth (fst (getPivotGroupDots s)) idx of
        None \<Rightarrow> Inl TypeError
      | Some column \<Rightarrow> Inr (fold showDot column (snd (getPivotGroupDots s))))"
  by (simp add: showGroupDots_def util_forEach_def forEachFrom_total split: prod.splits option.splits)

lemma showAnimation_fields:
  "case showAnimation data s of
     Inl e \<Rightarrow> True
   | Inr s' \<Rightarrow> groupDots s' = groupDots s \<and> pivotGroupDots s' = pivotGroupDots s"
  by (simp add: showAnimation_def showDot_def Let_def split: option.splits)

lemma hideAnimation_fields:
  "case hideAnimation data s of
     Inl e \<Rightarrow> True
   | Inr s' \<Rightarrow> groupDots s' = groupDots s \<and> pivotGroupDots s' = pivotGroupDots s"
  by (simp add: hideAnimation_def hideDot_def Let_def split: option.splits)

lemma hideGroupAnimation_fields:
  "case hideGroupAnimation idx s of
     Inl e \<Rightarrow> True
   | Inr s' \<Rightarrow> groupDots s' = groupDots s
        \<and> pivotGroupDots s' = Some (fst (getPivotGroupDots s))"
  using fold_hideDot_fields[of _ "snd (getPivotGroupDots s)"] getPivotGroupDots_fields[of s]
  by (simp add: hideGroupAnimation_def hideGroupDots_run hideTooltipLine_def
      split: option.splits)

lemma showGroupAnimation_fields:
  "case showGroupAnimation mk idx bnd s of
     Inl e \<Rightarrow> True
   | Inr s' \<Rightarrow> groupDots s' = groupDots s
        \<and> pivotGroupDots s' = Some (fst (getPivotGroupDots s))"
  using fold_showDot_fields[of _ "snd (getPivotGroupDots s)"] getPivotGroupDots_fields[of s]
  by (simp add: showGroupAnimation_def showGroupDots_run showTooltipLine_def Let_def
      split: option.splits)

subsection \<open>Rendering dots\<close>

lemma renderDot_eq:
  "renderDot pos color p =
     (next_ref p,
      p\<lparr>elems := (elems p)(next_ref p := renderedDotAttrs pos color),
        next_ref := Suc (next_ref p)\<rparr>)"
proof -
  have "[''cx'' \<mapsto> Num (left pos), ''cy'' \<mapsto> Num (top' pos), ''r'' \<mapsto> Num 3]
          ++ [''fill'' \<mapsto> color, ''fill-opacity'' \<mapsto> Num 0, ''stroke-opacity'' \<mapsto> Num 0]
        = renderedDotAttrs pos color"
    by (rule ext) (simp add: renderedDotAttrs_def map_add_def)
  then show ?thesis
    by (simp add: renderDot_def circle_def attr_def DEFAULT_DOT_WIDTH_def)
qed

lemma mapFrom_renderDot:
  assumes "mapFrom (\<lambda>pos _. renderDot pos color) ps k p = (dots, p')"
  shows "dots = [next_ref p ..< next_ref p + length ps]
       \<and> next_ref p' = next_ref p + length ps
       \<and> (\<forall>r. elems p' r =
            (if next_ref p \<le> r \<and> r < next_ref p + length ps
             then renderedDotAttrs (ps ! (r - next_ref p)) color else elems p r))"
  using assms
proof (induction ps arbitrary: k p dots p')
  case Nil
  then show ?case by auto
next
  case (Cons pos ps)
  let ?p1 = "p\<lparr>elems := (elems p)(next_ref p := renderedDotAttrs pos color),
                next_ref := Suc (next_ref p)\<rparr>"
  have step: "renderDot pos color p = (next_ref p, ?p1)"
    by (rule renderDot_eq)
  obtain ds q where rest0: "mapFrom (\<lambda>pos _. renderDot pos color) ps (Suc k) ?p1 = (ds, q)"
    by (cases "mapFrom (\<lambda>pos _. renderDot pos color) ps (Suc k) ?p1")
  have dots: "dots = next_ref p # ds" and q: "q = p'"
    using Cons.prems step rest0 by simp_all
  have rest: "mapFrom (\<lambda>pos _. renderDot pos color) ps (Suc k) ?p1 = (ds, p')"
    using rest0 q by simp
  note ih = Cons.IH[OF rest]
  have "ds = [Suc (next_ref p) ..< Suc (next_ref p + length ps)]"
    using ih by (simp del: upt_Suc)
  moreover have "[next_ref p ..< next_ref p + length (pos # ps)] =
      next_ref p # [Suc (next_ref p) ..< Suc (next_ref p + length ps)]"
    by (simp add: upt_conv_Cons del: upt_Suc)
  ultimately have d: "dots = [next_ref p ..< next_ref p + length (pos # ps)]"
    using dots by simp
  have n: "next_ref p' = next_ref p + length (pos # ps)"
    using ih by simp
  have e: "\<forall>r. elems p' r =
            (if next_ref p \<le> r \<and> r < next_ref p + length (pos # ps)
             then renderedDotAttrs ((pos # ps) ! (r - next_ref p)) color else elems p r)"
  proof
    fix r
    show "elems p' r =
            (if next_ref p \<le> r \<and> r < next_ref p + length (pos # ps)
             then renderedDotAttrs ((pos # ps) ! (r - next_ref p)) color else elems p r)"
    proof (cases "r = next_ref p")
      case True
      then show ?thesis using ih by simp
    next
      case False
      then show ?thesis using ih by (auto simp: nth_Cons' Suc_diff_le)
    qed
  qed
  show ?case using d n e by blast
qed


lemma mapFrom_renderDots:
  assumes "mapFrom (\<lambda>positions gIdx.
             mapFrom (\<lambda>pos _. renderDot pos
               (case js_nth colors gIdx of None \<Rightarrow> Undefined | Some c \<Rightarrow> Str c)) positions 0) gp k p = (dotss, p')"
  shows "map length dotss = map length gp
       \<and> next_ref p \<le> next_ref p'
       \<and> (\<forall>r < next_ref p. elems p' r = elems p r)
       \<and> (\<forall>g < length gp. \<forall>i < length (gp ! g).
            next_ref p \<le> dotss ! g ! i \<and> dotss ! g ! i < next_ref p'
            \<and> elems p' (dotss ! g ! i) = renderedDotAttrs (gp ! g ! i) (case js_nth colors (k + g) of None \<Rightarrow> Undefined | Some c \<Rightarrow> Str c))
       \<and> distinct (concat dotss)"
  using assms
proof (induction gp arbitrary: k p dotss p')
  case Nil
  then show ?case by simp
next
  case (Cons ps gp)
  let ?F = "\<lambda>positions gIdx.
             mapFrom (\<lambda>pos _. renderDot pos
               (case js_nth colors gIdx of None \<Rightarrow> Undefined | Some c \<Rightarrow> Str c)) positions 0"
  let ?c = "case js_nth colors k of None \<Rightarrow> Undefined | Some c \<Rightarrow> Str c"
  obtain d1 p1 where first: "mapFrom (\<lambda>pos _. renderDot pos ?c) ps 0 p = (d1, p1)"
    by (cases "mapFrom (\<lambda>pos _. renderDot pos ?c) ps 0 p")
  obtain ds q where rest0: "mapFrom ?F gp (Suc k) p1 = (ds, q)"
    by (cases "mapFrom ?F gp (Suc k) p1")
  have dotss: "dotss = d1 # ds" and q: "q = p'"
    using Cons.prems first rest0 by simp_all
  have rest: "mapFrom ?F gp (Suc k) p1 = (ds, p')"
    using rest0 q by simp
  note a = mapFrom_renderDot[OF first]
  note ih = Cons.IH[OF rest]
  have d1: "d1 = [next_ref p ..< next_ref p + length ps]"
    and n1: "next_ref p1 = next_ref p + length ps"
    and e1: "\<And>r. elems p1 r =
            (if next_ref p \<le> r \<and> r < next_ref p + length ps
             then renderedDotAttrs (ps ! (r - next_ref p)) (case js_nth colors k of None \<Rightarrow> Undefined | Some c \<Rightarrow> Str c) else elems p r)"
    using a by simp_all
  have len: "map length dotss = map length (ps # gp)"
    using ih d1 dotss by simp
  have mono: "next_ref p \<le> next_ref p'"
    using ih n1 by simp
  have old: "\<forall>r < next_ref p. elems p' r = elems p r"
    using ih n1 e1 by simp
  have cells: "\<forall>g < length (ps # gp). \<forall>i < length ((ps # gp) ! g).
            next_ref p \<le> dotss ! g ! i \<and> dotss ! g ! i < next_ref p'
            \<and> elems p' (dotss ! g ! i) = renderedDotAttrs ((ps # gp) ! g ! i) (case js_nth colors (k + g) of None \<Rightarrow> Undefined | Some c \<Rightarrow> Str c)"
  proof (intro allI impI)
    fix g i assume g: "g < length (ps # gp)" and i: "i < length ((ps # gp) ! g)"
    show "next_ref p \<le> dotss ! g ! i \<and> dotss ! g ! i < next_ref p'
            \<and> elems p' (dotss ! g ! i) = renderedDotAttrs ((ps # gp) ! g ! i) (case js_nth colors (k + g) of None \<Rightarrow> Undefined | Some c \<Rightarrow> Str c)"
    proof (cases g)
      case 0
      then have i': "i < length ps" using i by simp
      have cell: "dotss ! g ! i = next_ref p + i"
        using 0 i' d1 dotss by simp
      have "elems p' (next_ref p + i) = elems p1 (next_ref p + i)"
        using ih i' n1 by simp
      then show ?thesis
        using cell 0 i' e1[of "next_ref p + i"] ih n1 by simp
    next
      case (Suc g')
      then have g': "g' < length gp" and i': "i < length (gp ! g')"
        using g i by simp_all
      have "next_ref p1 \<le> ds ! g' ! i \<and> ds ! g' ! i < next_ref p'
            \<and> elems p' (ds ! g' ! i) = renderedDotAttrs (gp ! g' ! i) (case js_nth colors (Suc k + g') of None \<Rightarrow> Undefined | Some c \<Rightarrow> Str c)"
        using ih g' i' by blast
      then show ?thesis
        using Suc dotss n1 by simp
    qed
  qed
  have lower: "\<forall>x \<in> set (concat ds). next_ref p1 \<le> x"
  proof
    fix x assume "x \<in> set (concat ds)"
    then obtain row where row: "row \<in> set ds" and x: "x \<in> set row" by auto
    then obtain g where g: "g < length ds" and rg: "row = ds ! g"
      by (auto simp: in_set_conv_nth)
    obtain i where i: "i < length row" and xi: "x = row ! i"
      using x by (auto simp: in_set_conv_nth)
    have lg: "length ds = length gp" "length (ds ! g) = length (gp ! g)"
      using ih g by (metis length_map, metis length_map nth_map)
    then show "next_ref p1 \<le> x"
      using ih g i rg xi by simp
  qed
  have "set d1 \<inter> set (concat ds) = {}"
    using lower d1 n1 by fastforce
  then have dist: "distinct (concat dotss)"
    using ih d1 dotss by simp
  show ?case using len mono old cells dist by blast
qed

subsection \<open>Binding hover handlers\<close>

lemma forEachFrom_bind_group:
  assumes "js_nth groupPositions g = Some positions" and "distinct dots"
  shows "\<exists>hs'. forEachFrom (\<lambda>dot idx hs'.
             case js_nth groupPositions g of
               None \<Rightarrow> Inl TypeError
             | Some positions \<Rightarrow>
                 Inr (bindHoverEvent dot (js_nth positions idx) g idx inCallback outCallback hs'))
           dots k hs = Inr hs'
         \<and> (\<forall>j < length dots.
               hs' (dots ! j) =
                 hs (dots ! j) @ [(inCallback (js_nth positions (k + j)) (k + j) g, outCallback)])
         \<and> (\<forall>el. el \<notin> set dots \<longrightarrow> hs' el = hs el)"
  using assms(2)
proof (induction dots arbitrary: k hs)
  case Nil
  show ?case by simp
next
  case (Cons d ds)
  let ?f = "\<lambda>dot idx hs'.
             case js_nth groupPositions g of
               None \<Rightarrow> Inl TypeError
             | Some positions \<Rightarrow>
                 Inr (bindHoverEvent dot (js_nth positions idx) g idx inCallback outCallback hs')"
  let ?hs1 = "bindHoverEvent d (js_nth positions k) g k inCallback outCallback hs"
  have d: "d \<notin> set ds" and dist: "distinct ds"
    using Cons.prems by simp_all
  obtain hs' where run: "forEachFrom ?f ds (Suc k) ?hs1 = Inr hs'"
    and cells: "\<forall>j < length ds. hs' (ds ! j) =
        ?hs1 (ds ! j) @ [(inCallback (js_nth positions (Suc k + j)) (Suc k + j) g, outCallback)]"
    and frame: "\<forall>el. el \<notin> set ds \<longrightarrow> hs' el = ?hs1 el"
    using Cons.IH[OF dist, of "Suc k" ?hs1] by blast
  have step: "forEachFrom ?f (d # ds) k hs = Inr hs'"
    using run assms(1) by simp
  have hs1: "\<And>el. ?hs1 el =
      (if el = d then hs d @ [(inCallback (js_nth positions k) k g, outCallback)] else hs el)"
    by (simp add: bindHoverEvent_def hover_def)
  have all: "\<forall>j < length (d # ds). hs' ((d # ds) ! j) =
      hs ((d # ds) ! j) @ [(inCallback (js_nth positions (k + j)) (k + j) g, outCallback)]"
  proof (intro allI impI)
    fix j assume j: "j < length (d # ds)"
    show "hs' ((d # ds) ! j) =
      hs ((d # ds) ! j) @ [(inCallback (js_nth positions (k + j)) (k + j) g, outCallback)]"
    proof (cases j)
      case 0
      then show ?thesis using frame d hs1 by simp
    next
      case (Suc j')
      then have j': "j' < length ds" using j by simp
      then have "ds ! j' \<noteq> d" using d by (metis nth_mem)
      then show ?thesis using Suc j' cells hs1 by simp
    qed
  qed
  have out: "\<forall>el. el \<notin> set (d # ds) \<longrightarrow> hs' el = hs el"
    using frame hs1 by simp
  show ?case using step all out by blast
qed

lemma forEachFrom_bind_groups:
  assumes "k + length groupDots_arg \<le> length groupPositions"
    and "distinct (concat groupDots_arg)"
  shows "\<exists>hs'. forEachFrom (\<lambda>dots gIdx.
             forEachFrom (\<lambda>dot idx hs'.
                case js_nth groupPositions gIdx of
                  None \<Rightarrow> Inl TypeError
                | Some positions \<Rightarrow>
                    Inr (bindHoverEvent dot (js_nth positions idx) gIdx idx inCallback outCallback hs'))
               dots 0)
           groupDots_arg k hs = Inr hs'
         \<and> (\<forall>g < length groupDots_arg. \<forall>j < length (groupDots_arg ! g).
               hs' (groupDots_arg ! g ! j) =
                 hs (groupDots_arg ! g ! j)
                   @ [(inCallback (js_nth (groupPositions ! (k + g)) j) j (k + g), outCallback)])
         \<and> (\<forall>el. el \<notin> set (concat groupDots_arg) \<longrightarrow> hs' el = hs el)"
  using assms
proof (induction groupDots_arg arbitrary: k hs)
  case Nil
  show ?case by simp
next
  case (Cons dots rest)
  let ?inner = "\<lambda>gIdx. (\<lambda>dot idx hs'.
                case js_nth groupPositions gIdx of
                  None \<Rightarrow> Inl TypeError
                | Some positions \<Rightarrow>
                    Inr (bindHoverEvent dot (js_nth positions idx) gIdx idx inCallback outCallback hs'))"
  let ?outer = "\<lambda>dots gIdx. forEachFrom (?inner gIdx) dots 0"
  have k: "js_nth groupPositions k = Some (groupPositions ! k)"
    using Cons.prems(1) by (simp add: js_nth_def)
  have dd: "distinct dots" and dr: "distinct (concat rest)"
    and disj: "set dots \<inter> set (concat rest) = {}"
    using Cons.prems(2) by simp_all
  obtain hs1 where run1: "forEachFrom (?inner k) dots 0 hs = Inr hs1"
    and cells1: "\<forall>j < length dots. hs1 (dots ! j) =
        hs (dots ! j) @ [(inCallback (js_nth (groupPositions ! k) (0 + j)) (0 + j) k, outCallback)]"
    and frame1: "\<forall>el. el \<notin> set dots \<longrightarrow> hs1 el = hs el"
    using forEachFrom_bind_group[OF k dd, of inCallback outCallback 0 hs] by blast
  have len: "Suc k + length rest \<le> length groupPositions"
    using Cons.prems(1) by simp
  obtain hs' where run2: "forEachFrom ?outer rest (Suc k) hs1 = Inr hs'"
    and cells2: "\<forall>g < length rest. \<forall>j < length (rest ! g).
        hs' (rest ! g ! j) =
          hs1 (rest ! g ! j)
            @ [(inCallback (js_nth (groupPositions ! (Suc k + g)) j) j (Suc k + g), outCallback)]"
    and frame2: "\<forall>el. el \<notin> set (concat rest) \<longrightarrow> hs' el = hs1 el"
    using Cons.IH[OF len dr, of hs1] by blast
  have step: "forEachFrom ?outer (dots # rest) k hs = Inr hs'"
    using run1 run2 by simp
  have all: "\<forall>g < length (dots # rest). \<forall>j < length ((dots # rest) ! g).
        hs' ((dots # rest) ! g ! j) =
          hs ((dots # rest) ! g ! j)
            @ [(inCallback (js_nth (groupPositions ! (k + g)) j) j (k + g), outCallback)]"
  proof (intro allI impI)
    fix g j assume g: "g < length (dots # rest)" and j: "j < length ((dots # rest) ! g)"
    show "hs' ((dots # rest) ! g ! j) =
          hs ((dots # rest) ! g ! j)
            @ [(inCallback (js_nth (groupPositions ! (k + g)) j) j (k + g), outCallback)]"
    proof (cases g)
      case 0
      then have j0: "j < length dots" using j by simp
      then have "dots ! j \<notin> set (concat rest)"
        using disj by (meson disjoint_iff nth_mem)
      then show ?thesis using 0 j0 cells1 frame2 by simp
    next
      case (Suc g')
      then have g': "g' < length rest" and j': "j < length (rest ! g')"
        using g j by simp_all
      then have "rest ! g' ! j \<in> set (concat rest)"
        by (metis concat_conv_foldr nth_mem set_concat UN_I)
      then have "rest ! g' ! j \<notin> set dots"
        using disj by blast
      then show ?thesis using Suc g' j' cells2 frame1 by simp
    qed
  qed
  have out: "\<forall>el. el \<notin> set (concat (dots # rest)) \<longrightarrow> hs' el = hs el"
    using frame1 frame2 by simp
  show ?case using step all out by blast
qed

subsection \<open>The concrete instances\<close>

lemmas render_pass_defs = render_pass_def renderDots_def util_map_def renderDot_def circle_def
  attr_def blank_paper_def js_nth_def pt_def DEFAULT_DOT_WIDTH_def

lemma rendered_state_fields:
  "groupDots rendered_state = [[0, 1, 2], [3, 4, 5]]"
  "pivotGroupDots rendered_state = None"
  "outDotStyle rendered_state = makeOutDotStyle 0 None"
  "tooltipLine rendered_state = 6"
  by (simp_all add: rendered_state_def render_pass_defs split: prod.splits)

lemma ragged_state_fields:
  "groupDots ragged_state = [[0, 1], [], [2, 3, 4]]"
  "pivotGroupDots ragged_state = None"
  "outDotStyle ragged_state = makeOutDotStyle 0 None"
  "tooltipLine ragged_state = 5"
  by (simp_all add: ragged_state_def ragged_positions_def render_pass_defs split: prod.splits)

lemma pivot_2x3: "util_pivot [[0, 1, 2], [3, 4, 5::nat]] = [[0, 3], [1, 4], [2, 5]]"
  by code_simp

lemma pivot_2x1: "util_pivot [[7], [8::nat]] = [[7, 8]]"
  by code_simp

lemma pivot_ragged: "util_pivot [[0, 1], [], [2, 3, 4::nat]] = [[0, 2], [1, 3], [4]]"
  by code_simp

lemma rendered_state_next_ref: "next_ref (paper rendered_state) = 7"
  by (simp add: rendered_state_def render_pass_defs split: prod.splits)

lemma shown_state_eq:
  "shown_state =
     showTooltipLine (\<lambda>fromPos toPos. ''M20 60L20 0'') hover_bound
       (showDot 4 (showDot 1 (rendered_state\<lparr>pivotGroupDots := Some [[0, 3], [1, 4], [2, 5]]\<rparr>)))"
  by (simp add: shown_state_def showGroupAnimation_def showGroupDots_run getPivotGroupDots_def
      js_nth_def rendered_state_fields pivot_2x3 Let_def del: One_nat_def)

lemma shown_state_fields:
  "groupDots shown_state = [[0, 1, 2], [3, 4, 5]]"
  "pivotGroupDots shown_state = Some [[0, 3], [1, 4], [2, 5]]"
  "tooltipLine shown_state = 6"
  "outDotStyle shown_state = makeOutDotStyle 0 None"
  by (simp_all add: shown_state_eq showTooltipLine_def showDot_def rendered_state_fields Let_def)

lemma shown_state_attrs:
  "elems (paper shown_state) 1 ''r'' = Some (Num 4)"
  "elems (paper shown_state) 4 ''fill-opacity'' = Some (Num 1)"
  "elems (paper shown_state) 6 ''stroke-opacity'' = Some (Num 1)"
  "elems (paper shown_state) 6 ''path'' = Some (Str ''M20 60L20 0'')"
  "elems (paper shown_state) 6 ''stroke'' = Some (Str ''#999'')"
  by (simp_all add: shown_state_eq showTooltipLine_def showDot_def attr_def rendered_state_fields
      HOVER_DOT_WIDTH_def Let_def)

lemma rerendered_state_eq:
  "rerendered_state =
     (case renderDots [[pt 10 50], [pt 10 45]] [''#f00'', ''#00f''] (paper rendered_state) of
        (dots, p) \<Rightarrow>
          rendered_state\<lparr>pivotGroupDots := Some [[0, 3], [1, 4], [2, 5]],
                         groupDots := dots, paper := p\<rparr>)"
  by (simp add: rerendered_state_def getPivotGroupDots_def rendered_state_fields pivot_2x3 Let_def
      del: One_nat_def)

lemma rerendered_state_fields:
  "groupDots rerendered_state = [[7], [8]]"
  "pivotGroupDots rerendered_state = Some [[0, 3], [1, 4], [2, 5]]"
  "tooltipLine rerendered_state = 6"
  "outDotStyle rerendered_state = makeOutDotStyle 0 None"
  by (simp_all add: rerendered_state_eq renderDots_def util_map_def renderDot_def circle_def attr_def
      js_nth_def rendered_state_next_ref rendered_state_fields split: prod.splits)

lemma hovered_state_eq: "hovered_state = showDot 7 rerendered_state"
  by (simp add: hovered_state_def showAnimation_def js_nth_def rerendered_state_fields Let_def)

lemma hovered_state_fields:
  "groupDots hovered_state = [[7], [8]]"
  "pivotGroupDots hovered_state = Some [[0, 3], [1, 4], [2, 5]]"
  "tooltipLine hovered_state = 6"
  "outDotStyle hovered_state = makeOutDotStyle 0 None"
  "elems (paper hovered_state) 7 ''r'' = Some (Num 4)"
  by (simp_all add: hovered_state_eq showDot_def attr_def rerendered_state_fields
      HOVER_DOT_WIDTH_def)

subsection \<open>Line paths\<close>

lemma makeLinePath_any_maker:
  "makeLinePath util_makeLinePath A B s =
     (\<lparr>start = util_makeLinePath A A, end' = util_makeLinePath A B\<rparr>, s)"
  by (simp add: makeLinePath_def)

lemma pathLength_zero_iff:
  "pathLength (LinePath A B) = 0 \<longleftrightarrow> A = B"
proof -
  have "pathLength (LinePath A B) = 0 \<longleftrightarrow> left B - left A = 0 \<and> top' B - top' A = 0"
    by (simp add: pathLength_def sum_power2_eq_zero_iff)
  also have "\<dots> \<longleftrightarrow> A = B"
    by (cases A, cases B) auto
  finally show ?thesis .
qed

section \<open>The claims\<close>

text \<open>
  C1. When \<^verbatim>\<open>groupDots[data.index][data.groupIndex]\<close> exists, \<^verbatim>\<open>showAnimation(data)\<close>
  succeeds, writes exactly the hover style (fill-opacity 1, stroke-opacity 0.3, stroke-width
  2, r 4) into that marker, whose other attributes stay, and leaves the attributes of every
  other element as they were. The payload field \<^verbatim>\<open>groupIndex\<close> selects the point and the
  field \<^verbatim>\<open>index\<close> the group.
\<close>

theorem showAnimation_styles_one_marker:
  assumes "index data < length (groupDots s)"
    and "groupIndex data < length (groupDots s ! index data)"
  shows "\<exists>s'. showAnimation data s = Inr s'
           \<and> elems (paper s') (groupDots s ! index data ! groupIndex data) =
               elems (paper s) (groupDots s ! index data ! groupIndex data)
                 ++ [''fill-opacity'' \<mapsto> Num 1, ''stroke-opacity'' \<mapsto> Num 0.3,
                     ''stroke-width'' \<mapsto> Num 2, ''r'' \<mapsto> Num 4]
           \<and> (\<forall>el. el \<noteq> groupDots s ! index data ! groupIndex data
                  \<longrightarrow> elems (paper s') el = elems (paper s) el)"
  using assms by (simp add: show_hide_defs)

theorem showAnimation_styles_one_marker_witness:
  "index \<lparr>groupIndex = 2, index = 1\<rparr> < length (groupDots rendered_state)
   \<and> groupIndex \<lparr>groupIndex = 2, index = 1\<rparr> < length (groupDots rendered_state ! 1)
   \<and> groupDots rendered_state ! 1 ! 2 = 5
   \<and> (\<exists>s'. showAnimation \<lparr>groupIndex = 2, index = 1\<rparr> rendered_state = Inr s'
         \<and> elems (paper s') 5 =
             elems (paper rendered_state) 5
               ++ [''fill-opacity'' \<mapsto> Num 1, ''stroke-opacity'' \<mapsto> Num 0.3,
                   ''stroke-width'' \<mapsto> Num 2, ''r'' \<mapsto> Num 4]
         \<and> (\<forall>el. el \<noteq> 5 \<longrightarrow> elems (paper s') el = elems (paper rendered_state) el))"
  using showAnimation_styles_one_marker[of "\<lparr>groupIndex = 2, index = 1\<rparr>" rendered_state]
  by (simp add: rendered_state_fields)

text \<open>
  C2, as the source has it. Show and then hide on an existing marker, with an out style
  built by \<^verbatim>\<open>makeOutDotStyle\<close> from any opacity and border style, leaves the marker with
  its attributes from before the show, overridden by stroke-width 2 and then by the fields
  of the out style; no other element changes. The marker is back in its attribute set from
  before the show exactly when it already carried every field of the out style and, where
  the out style has no stroke-width, a stroke-width of 2.
\<close>

theorem show_then_hide_result:
  assumes "index data < length (groupDots s)"
    and "groupIndex data < length (groupDots s ! index data)"
    and "outDotStyle s = makeOutDotStyle opacity borderStyle"
  shows "\<exists>s'. showThenHide data s = Inr s'
           \<and> elems (paper s') (groupDots s ! index data ! groupIndex data) =
               (elems (paper s) (groupDots s ! index data ! groupIndex data))
                 (''stroke-width'' \<mapsto> Num 2) ++ outDotStyle s
           \<and> (\<forall>el. el \<noteq> groupDots s ! index data ! groupIndex data
                  \<longrightarrow> elems (paper s') el = elems (paper s) el)
           \<and> (elems (paper s') (groupDots s ! index data ! groupIndex data) =
                elems (paper s) (groupDots s ! index data ! groupIndex data)
              \<longleftrightarrow> (\<forall>k v. outDotStyle s k = Some v
                        \<longrightarrow> elems (paper s) (groupDots s ! index data ! groupIndex data) k = Some v)
                  \<and> (outDotStyle s ''stroke-width'' = None
                        \<longrightarrow> elems (paper s) (groupDots s ! index data ! groupIndex data)
                              ''stroke-width'' = Some (Num 2)))"
proof -
  let ?dot = "groupDots s ! index data ! groupIndex data"
  let ?m = "elems (paper s) ?dot"
  let ?s' = "hideDot ?dot (showDot ?dot s)"
  have run: "showThenHide data s = Inr ?s'"
    using assms(1,2) by (simp add: showThenHide_def show_hide_defs)
  have at: "elems (paper ?s') ?dot = ?m(''stroke-width'' \<mapsto> Num 2) ++ outDotStyle s"
    using show_then_out[of ?m opacity borderStyle] assms(3)
    by (simp add: show_hide_defs)
  have frame: "\<forall>el. el \<noteq> ?dot \<longrightarrow> elems (paper ?s') el = elems (paper s) el"
    by (simp add: show_hide_defs)
  show ?thesis
    using run at frame override_fixpoint[of ?m "''stroke-width''" "Num 2" "outDotStyle s"]
    by simp
qed

theorem show_then_hide_result_witness:
  "index \<lparr>groupIndex = 1, index = 1\<rparr> < length (groupDots rendered_state)
   \<and> groupIndex \<lparr>groupIndex = 1, index = 1\<rparr> < length (groupDots rendered_state ! 1)
   \<and> outDotStyle rendered_state = makeOutDotStyle 0 None
   \<and> groupDots rendered_state ! 1 ! 1 = 4
   \<and> (\<exists>s'. showThenHide \<lparr>groupIndex = 1, index = 1\<rparr> rendered_state = Inr s'
         \<and> elems (paper s') 4 =
             (elems (paper rendered_state) 4)(''stroke-width'' \<mapsto> Num 2)
               ++ makeOutDotStyle 0 None
         \<and> (\<forall>el. el \<noteq> 4 \<longrightarrow> elems (paper s') el = elems (paper rendered_state) el)
         \<and> elems (paper s') 4 \<noteq> elems (paper rendered_state) 4)"
proof -
  have sw: "elems (paper rendered_state) 4 ''stroke-width'' = None"
    by (simp add: rendered_state_def render_pass_defs split: prod.splits)
  have out: "makeOutDotStyle 0 None ''stroke-width'' = None"
    by (simp add: makeOutDotStyle_def)
  show ?thesis
    using show_then_hide_result[of "\<lparr>groupIndex = 1, index = 1\<rparr>" rendered_state 0 None] sw out
    by (simp add: rendered_state_fields)
qed

text \<open>
  C2, as the claim states it, fails on a freshly rendered dot whose out style is
  \<^verbatim>\<open>makeOutDotStyle(0, undefined)\<close>: the dot has no stroke-width before the show and
  stroke-width 2 after the hide.
\<close>

theorem show_then_hide_changes_stroke_width:
  "elems (paper rendered_state) 4 ''stroke-width'' = None
   \<and> map_sum id (\<lambda>s. elems (paper s) 4 ''stroke-width'')
        (showThenHide \<lparr>groupIndex = 1, index = 1\<rparr> rendered_state) = Inr (Some (Num 2))"
  by (simp add: rendered_state_def render_pass_defs showThenHide_def show_hide_defs
      makeOutDotStyle_def util_extend_def split: prod.splits)

text \<open>
  C3, as the source has it. When the group \<^verbatim>\<open>groupDots[data.index]\<close> exists and has no
  marker at \<^verbatim>\<open>data.groupIndex\<close>, \<^verbatim>\<open>hideAnimation(data)\<close> raises nothing and returns the
  state it was given: no attribute of any element changes.
\<close>

theorem hideAnimation_absent_point_noop:
  assumes "index data < length (groupDots s)"
    and "\<not> groupIndex data < length (groupDots s ! index data)"
  shows "hideAnimation data s = Inr s"
  using assms by (simp add: show_hide_defs)

theorem hideAnimation_absent_point_noop_witness:
  "index \<lparr>groupIndex = 0, index = 1\<rparr> < length (groupDots ragged_state)
   \<and> \<not> groupIndex \<lparr>groupIndex = 0, index = 1\<rparr> < length (groupDots ragged_state ! 1)
   \<and> hideAnimation \<lparr>groupIndex = 0, index = 1\<rparr> ragged_state = Inr ragged_state"
  using hideAnimation_absent_point_noop[of "\<lparr>groupIndex = 0, index = 1\<rparr>" ragged_state]
  by (simp add: ragged_state_fields)

text \<open>
  C3, as the claim states it, fails when the group itself is absent: with two groups and
  \<^verbatim>\<open>data.index = 2\<close> the marker is absent and \<^verbatim>\<open>hideAnimation\<close> raises a TypeError.
\<close>

theorem hideAnimation_absent_group_raises:
  "js_nth (groupDots rendered_state) 2 = None
   \<and> hideAnimation \<lparr>groupIndex = 0, index = 2\<rparr> rendered_state = Inl TypeError"
  by (simp add: show_hide_defs rendered_state_fields)

text \<open>
  C4, as the source has it. \<^verbatim>\<open>_getPivotGroupDots\<close> computes the index transpose of
  \<^verbatim>\<open>groupDots\<close> only while no pivot is cached, and caches it; once a pivot is cached every
  later call returns it and leaves the state alone, whatever \<^verbatim>\<open>groupDots\<close> holds by then.
  No method clears the cache or assigns \<^verbatim>\<open>groupDots\<close>: \<^verbatim>\<open>showAnimation\<close> and
  \<^verbatim>\<open>hideAnimation\<close> keep both fields, and from a state whose cache is unset or consistent
  \<^verbatim>\<open>showGroupAnimation\<close> and \<^verbatim>\<open>hideGroupAnimation\<close> read the transpose of the current
  \<^verbatim>\<open>groupDots\<close> and leave it cached.
\<close>

theorem pivotGroupDots_cached_not_invalidated:
  "(pivotGroupDots s = None \<longrightarrow>
      getPivotGroupDots s =
        (util_pivot (groupDots s), s\<lparr>pivotGroupDots := Some (util_pivot (groupDots s))\<rparr>))
   \<and> (\<forall>p. pivotGroupDots s = Some p \<longrightarrow> getPivotGroupDots s = (p, s))
   \<and> (case showAnimation data s of
        Inl e \<Rightarrow> True
      | Inr s' \<Rightarrow> groupDots s' = groupDots s \<and> pivotGroupDots s' = pivotGroupDots s)
   \<and> (case hideAnimation data s of
        Inl e \<Rightarrow> True
      | Inr s' \<Rightarrow> groupDots s' = groupDots s \<and> pivotGroupDots s' = pivotGroupDots s)
   \<and> (pivotConsistent s \<longrightarrow>
        fst (getPivotGroupDots s) = util_pivot (groupDots s)
        \<and> (case showGroupAnimation util_makeLinePath idx bnd s of
             Inl e \<Rightarrow> True
           | Inr s' \<Rightarrow> groupDots s' = groupDots s
                \<and> pivotGroupDots s' = Some (util_pivot (groupDots s')))
        \<and> (case hideGroupAnimation idx s of
             Inl e \<Rightarrow> True
           | Inr s' \<Rightarrow> groupDots s' = groupDots s
                \<and> pivotGroupDots s' = Some (util_pivot (groupDots s'))))"
proof -
  have first: "pivotGroupDots s = None \<longrightarrow>
      getPivotGroupDots s =
        (util_pivot (groupDots s), s\<lparr>pivotGroupDots := Some (util_pivot (groupDots s))\<rparr>)"
    by (simp add: getPivotGroupDots_def Let_def)
  have later: "\<forall>p. pivotGroupDots s = Some p \<longrightarrow> getPivotGroupDots s = (p, s)"
    by (simp add: getPivotGroupDots_def)
  have grp: "pivotConsistent s \<longrightarrow>
        fst (getPivotGroupDots s) = util_pivot (groupDots s)
        \<and> (case showGroupAnimation util_makeLinePath idx bnd s of
             Inl e \<Rightarrow> True
           | Inr s' \<Rightarrow> groupDots s' = groupDots s
                \<and> pivotGroupDots s' = Some (util_pivot (groupDots s')))
        \<and> (case hideGroupAnimation idx s of
             Inl e \<Rightarrow> True
           | Inr s' \<Rightarrow> groupDots s' = groupDots s
                \<and> pivotGroupDots s' = Some (util_pivot (groupDots s')))"
    using getPivotGroupDots_consistent[of s]
      showGroupAnimation_fields[where s = s and mk = util_makeLinePath and idx = idx and bnd = bnd]
      hideGroupAnimation_fields[where s = s and idx = idx]
    by (auto split: sum.splits)
  show ?thesis
    using first later grp showAnimation_fields[where s = s and data = data]
      hideAnimation_fields[where s = s and data = data]
    by blast
qed

theorem pivotGroupDots_cached_not_invalidated_witness:
  "pivotGroupDots rendered_state = None
   \<and> pivotConsistent rendered_state
   \<and> getPivotGroupDots rendered_state =
       ([[0, 3], [1, 4], [2, 5]], rendered_state\<lparr>pivotGroupDots := Some [[0, 3], [1, 4], [2, 5]]\<rparr>)
   \<and> pivotGroupDots (rendered_state\<lparr>pivotGroupDots := Some [[0, 3], [1, 4], [2, 5]]\<rparr>)
       = Some [[0, 3], [1, 4], [2, 5]]
   \<and> getPivotGroupDots (rendered_state\<lparr>pivotGroupDots := Some [[0, 3], [1, 4], [2, 5]]\<rparr>) =
       ([[0, 3], [1, 4], [2, 5]], rendered_state\<lparr>pivotGroupDots := Some [[0, 3], [1, 4], [2, 5]]\<rparr>)
   \<and> map_sum id (\<lambda>s. (groupDots s, pivotGroupDots s)) (hideGroupAnimation 0 rendered_state)
       = Inr ([[0, 1, 2], [3, 4, 5]], Some [[0, 3], [1, 4], [2, 5]])"
proof -
  have ok: "\<exists>s'. hideGroupAnimation 0 rendered_state = Inr s'"
    by (simp add: hideGroupAnimation_def hideGroupDots_run getPivotGroupDots_def js_nth_def
        rendered_state_fields pivot_2x3 Let_def del: One_nat_def)
  show ?thesis
    using ok pivotGroupDots_cached_not_invalidated[where s = rendered_state and idx = 0]
      pivotGroupDots_cached_not_invalidated
        [where s = "rendered_state\<lparr>pivotGroupDots := Some [[0, 3], [1, 4], [2, 5]]\<rparr>"]
    by (auto simp add: rendered_state_fields pivot_2x3 pivotConsistent_def simp del: One_nat_def)
qed

text \<open>
  C4, as the claim states it, fails: after the pivot of \<open>rendered_state\<close> has been read once
  and \<^verbatim>\<open>groupDots\<close> has been replaced by \<open>[[7], [8]]\<close>, whose transpose is \<open>[[7, 8]]\<close>, the
  pivot that the group methods read is still the transpose of the old table, and
  \<^verbatim>\<open>showGroupAnimation(0, bound)\<close> enlarges the old dot 3 and leaves the new dot 8 alone.
\<close>

theorem pivotGroupDots_stale_after_replacement:
  "groupDots replaced_state = [[7], [8]]
   \<and> util_pivot (groupDots replaced_state) = [[7, 8]]
   \<and> fst (getPivotGroupDots replaced_state) = [[0, 3], [1, 4], [2, 5]]
   \<and> map_sum id (\<lambda>s. (elems (paper s) 3 ''r'', elems (paper s) 8 ''r''))
        (showGroupAnimation (\<lambda>a b. ''M10 60L10 0'') 0
           \<lparr>dimension = \<lparr>width = 100, height = 60\<rparr>, position = pt 10 0\<rparr> replaced_state)
       = Inr (Some (Num 4), None)"
proof -
  have pv: "getPivotGroupDots replaced_state = ([[0, 3], [1, 4], [2, 5]], replaced_state)"
    and gd: "groupDots replaced_state = [[7], [8]]"
    and tl: "tooltipLine replaced_state = 6"
    by (simp_all add: replaced_state_def getPivotGroupDots_def rendered_state_fields pivot_2x3
        Let_def del: One_nat_def)
  have pap: "paper replaced_state = paper rendered_state"
    by (simp add: replaced_state_def getPivotGroupDots_def rendered_state_fields Let_def)
  have old: "elems (paper rendered_state) 8 ''r'' = None"
    by (simp add: rendered_state_def render_pass_defs split: prod.splits)
  show ?thesis
    using pv gd tl pap old
    by (simp add: pivot_2x1 showGroupAnimation_def showGroupDots_run js_nth_def
        showTooltipLine_def showDot_def attr_def HOVER_DOT_WIDTH_def Let_def del: One_nat_def)
qed

text \<open>
  C5, as the source has it. For a column index \<open>idx\<close> of the pivot that the call reads (the
  cached pivot, or the transpose of \<^verbatim>\<open>groupDots\<close> while none is cached),
  \<^verbatim>\<open>hideGroupAnimation(idx)\<close> succeeds and writes the cached out style into every marker of
  that column. While the cache is unset or consistent, the column is \<^verbatim>\<open>groupDots[g][idx]\<close>
  for every group \<open>g\<close> that has a point at \<open>idx\<close>, in group order. The tooltip line gets
  stroke-opacity 0; being an element other than the column's markers, it keeps all its
  other attributes, among them path and stroke.
\<close>

theorem hideGroupAnimation_column:
  assumes "idx < length (fst (getPivotGroupDots s))"
  shows "\<exists>s'. hideGroupAnimation idx s = Inr s'
           \<and> (\<forall>dot \<in> set (fst (getPivotGroupDots s) ! idx).
                 dot \<noteq> tooltipLine s
                 \<longrightarrow> elems (paper s') dot = elems (paper s) dot ++ outDotStyle s)
           \<and> (pivotConsistent s \<longrightarrow>
                 fst (getPivotGroupDots s) ! idx =
                   map (\<lambda>dots. dots ! idx) (filter (\<lambda>dots. idx < length dots) (groupDots s)))
           \<and> elems (paper s') (tooltipLine s) ''stroke-opacity'' = Some (Num 0)
           \<and> (tooltipLine s \<notin> set (fst (getPivotGroupDots s) ! idx) \<longrightarrow>
                 elems (paper s') (tooltipLine s) =
                   (elems (paper s) (tooltipLine s))(''stroke-opacity'' \<mapsto> Num 0)
                 \<and> elems (paper s') (tooltipLine s) ''path'' = elems (paper s) (tooltipLine s) ''path''
                 \<and> elems (paper s') (tooltipLine s) ''stroke''
                     = elems (paper s) (tooltipLine s) ''stroke'')"
proof -
  let ?pv = "fst (getPivotGroupDots s)"
  let ?s1 = "snd (getPivotGroupDots s)"
  let ?col = "?pv ! idx"
  let ?s2 = "fold hideDot ?col ?s1"
  let ?s' = "hideTooltipLine ?s2"
  have run: "hideGroupAnimation idx s = Inr ?s'"
    using assms by (simp add: hideGroupAnimation_def hideGroupDots_run js_nth_def)
  have tl: "tooltipLine ?s2 = tooltipLine s" and out: "outDotStyle ?s1 = outDotStyle s"
    and pap: "paper ?s1 = paper s"
    using fold_hideDot_fields[of ?col ?s1] getPivotGroupDots_fields[of s] by simp_all
  have mid: "\<And>el. elems (paper ?s2) el =
      (if el \<in> set ?col then elems (paper s) el ++ outDotStyle s else elems (paper s) el)"
    using fold_hideDot_elems[of ?col ?s1] out pap by simp
  have fin: "\<And>el. elems (paper ?s') el =
      (if el = tooltipLine s then elems (paper ?s2) el ++ [''stroke-opacity'' \<mapsto> Num 0]
       else elems (paper ?s2) el)"
    using tl by (simp add: hideTooltipLine_def attr_def)
  have dots: "\<forall>dot \<in> set ?col. dot \<noteq> tooltipLine s
      \<longrightarrow> elems (paper ?s') dot = elems (paper s) dot ++ outDotStyle s"
    using fin mid by simp
  have opac: "elems (paper ?s') (tooltipLine s) ''stroke-opacity'' = Some (Num 0)"
    using fin by simp
  have line: "tooltipLine s \<notin> set ?col \<longrightarrow>
      elems (paper ?s') (tooltipLine s) =
        (elems (paper s) (tooltipLine s))(''stroke-opacity'' \<mapsto> Num 0)"
    using fin mid by simp
  have col: "pivotConsistent s \<longrightarrow>
      ?col = map (\<lambda>dots. dots ! idx) (filter (\<lambda>dots. idx < length dots) (groupDots s))"
    using assms util_pivot_column[of idx "groupDots s"] getPivotGroupDots_consistent[of s]
    by auto
  show ?thesis
    using run dots opac line col by simp
qed

theorem hideGroupAnimation_column_witness:
  "1 < length (fst (getPivotGroupDots shown_state))
   \<and> groupDots shown_state = [[0, 1, 2], [3, 4, 5]]
   \<and> pivotConsistent shown_state
   \<and> fst (getPivotGroupDots shown_state) ! 1 = [1, 4]
   \<and> tooltipLine shown_state = 6
   \<and> elems (paper shown_state) 1 ''r'' = Some (Num 4)
   \<and> elems (paper shown_state) 4 ''fill-opacity'' = Some (Num 1)
   \<and> elems (paper shown_state) 6 ''stroke-opacity'' = Some (Num 1)
   \<and> (\<exists>s'. hideGroupAnimation 1 shown_state = Inr s'
         \<and> elems (paper s') 1 = elems (paper shown_state) 1 ++ outDotStyle shown_state
         \<and> elems (paper s') 4 = elems (paper shown_state) 4 ++ outDotStyle shown_state
         \<and> elems (paper s') 1 ''r'' = Some (Num 3)
         \<and> elems (paper s') 4 ''fill-opacity'' = Some (Num 0)
         \<and> elems (paper s') 6 ''stroke-opacity'' = Some (Num 0)
         \<and> elems (paper s') 6 ''path'' = Some (Str ''M20 60L20 0'')
         \<and> elems (paper s') 6 ''stroke'' = Some (Str ''#999''))"
proof -
  have flds: "groupDots shown_state = [[0, 1, 2], [3, 4, 5]]"
    "pivotGroupDots shown_state = Some [[0, 3], [1, 4], [2, 5]]"
    "tooltipLine shown_state = 6"
    "outDotStyle shown_state = makeOutDotStyle 0 None"
    by (simp_all add: shown_state_fields)
  have pv: "fst (getPivotGroupDots shown_state) = [[0, 3], [1, 4], [2, 5]]"
    by (simp add: getPivotGroupDots_def flds)
  have cons: "pivotConsistent shown_state"
    by (simp add: pivotConsistent_def flds pivot_2x3 del: One_nat_def)
  have out: "makeOutDotStyle 0 None ''r'' = Some (Num 3)"
    "makeOutDotStyle 0 None ''fill-opacity'' = Some (Num 0)"
    by (simp_all add: makeOutDotStyle_def DEFAULT_DOT_WIDTH_def)
  show ?thesis
    using hideGroupAnimation_column[of 1 shown_state] pv cons flds out shown_state_attrs
    by (auto simp: map_add_def)
qed

text \<open>
  C5, as the claim states it, fails on \<open>hovered_state\<close>, whose table was replaced after the
  pivot had been cached. Column 0 is valid, \<^verbatim>\<open>groupDots[0][0]\<close> is dot 7 and is in the hover
  style; \<^verbatim>\<open>hideGroupAnimation(0)\<close> writes the out style into the old dots 0 and 3 and
  leaves dot 7 with radius 4, where the out style has radius 3.
\<close>

theorem hideGroupAnimation_misses_replaced_dots:
  "groupDots hovered_state = [[7], [8]]
   \<and> js_nth (fst (getPivotGroupDots hovered_state)) 0 = Some [0, 3]
   \<and> outDotStyle hovered_state ''r'' = Some (Num 3)
   \<and> elems (paper hovered_state) 7 ''r'' = Some (Num 4)
   \<and> map_sum id (\<lambda>s. elems (paper s) 7 ''r'') (hideGroupAnimation 0 hovered_state)
       = Inr (Some (Num 4))"
proof -
  have flds: "groupDots hovered_state = [[7], [8]]"
    "pivotGroupDots hovered_state = Some [[0, 3], [1, 4], [2, 5]]"
    "tooltipLine hovered_state = 6"
    "outDotStyle hovered_state = makeOutDotStyle 0 None"
    "elems (paper hovered_state) 7 ''r'' = Some (Num 4)"
    by (simp_all add: hovered_state_fields)
  have pv: "getPivotGroupDots hovered_state = ([[0, 3], [1, 4], [2, 5]], hovered_state)"
    by (simp add: getPivotGroupDots_def flds)
  have out: "makeOutDotStyle 0 None ''r'' = Some (Num 3)"
    by (simp add: makeOutDotStyle_def DEFAULT_DOT_WIDTH_def)
  show ?thesis
    using pv flds out
    by (simp add: hideGroupAnimation_def hideGroupDots_run js_nth_def hideTooltipLine_def
        hideDot_def attr_def)
qed

text \<open>
  C6. For congruent \<^verbatim>\<open>groupDots\<close> and \<^verbatim>\<open>groupPositions\<close> whose dots are separate elements,
  \<^verbatim>\<open>attachEvent\<close> succeeds, and afterwards a hover-enter on the marker at group \<open>g\<close>, point
  \<open>i\<close> runs the handlers bound before and then calls \<^verbatim>\<open>inCallback\<close> with exactly
  \<open>(groupPositions[g][i], i, g)\<close>: the position, the point index, the group index. A
  hover-exit calls \<^verbatim>\<open>outCallback\<close>, which receives nothing.
\<close>

theorem attachEvent_hover_callbacks:
  assumes "congruent groupDots_arg groupPositions"
    and "distinct (concat groupDots_arg)"
    and "g < length groupDots_arg" and "i < length (groupDots_arg ! g)"
  shows "\<exists>hs'. attachEvent groupDots_arg groupPositions outDotStyle_arg inCallback outCallback hs = Inr hs'
           \<and> hoverEnter hs' (groupDots_arg ! g ! i) w =
               inCallback (Some (groupPositions ! g ! i)) i g (hoverEnter hs (groupDots_arg ! g ! i) w)
           \<and> hoverExit hs' (groupDots_arg ! g ! i) w =
               outCallback (hoverExit hs (groupDots_arg ! g ! i) w)"
proof -
  have len: "length groupDots_arg = length groupPositions"
    using assms(1) congruent_shape by blast
  have leni: "length (groupDots_arg ! g) = length (groupPositions ! g)"
    using assms(1,3) congruent_shape by blast
  have pos: "js_nth (groupPositions ! g) i = Some (groupPositions ! g ! i)"
    using assms(4) leni by (simp add: js_nth_def)
  have bound: "0 + length groupDots_arg \<le> length groupPositions"
    using len by simp
  obtain hs' where run: "forEachFrom (\<lambda>dots gIdx.
             forEachFrom (\<lambda>dot idx hs'.
                case js_nth groupPositions gIdx of
                  None \<Rightarrow> Inl TypeError
                | Some positions \<Rightarrow>
                    Inr (bindHoverEvent dot (js_nth positions idx) gIdx idx inCallback outCallback hs'))
               dots 0)
           groupDots_arg 0 hs = Inr hs'"
    and cells: "\<forall>g < length groupDots_arg. \<forall>j < length (groupDots_arg ! g).
               hs' (groupDots_arg ! g ! j) =
                 hs (groupDots_arg ! g ! j)
                   @ [(inCallback (js_nth (groupPositions ! (0 + g)) j) j (0 + g), outCallback)]"
    using forEachFrom_bind_groups[OF bound assms(2), of inCallback outCallback hs] by blast
  have att: "attachEvent groupDots_arg groupPositions outDotStyle_arg inCallback outCallback hs = Inr hs'"
    using run by (simp add: attachEvent_def util_forEach_eq)
  have "hs' (groupDots_arg ! g ! i) =
      hs (groupDots_arg ! g ! i) @ [(inCallback (Some (groupPositions ! g ! i)) i g, outCallback)]"
    using cells assms(3,4) pos by simp
  then show ?thesis
    using att by (simp add: hoverEnter_def hoverExit_def)
qed

theorem attachEvent_hover_callbacks_witness:
  "congruent [[0, 1, 2], [3, 4, 5::nat]]
     [[pt 10 50, pt 20 40, pt 30 30], [pt 10 45, pt 20 35, pt 30 25]]
   \<and> distinct (concat [[0, 1, 2], [3, 4, 5::nat]])
   \<and> (\<exists>hs'. attachEvent [[0, 1, 2], [3, 4, 5]]
               [[pt 10 50, pt 20 40, pt 30 30], [pt 10 45, pt 20 35, pt 30 25]]
               (makeOutDotStyle 0 None) logIn logOut (\<lambda>_. []) = Inr hs'
         \<and> hoverEnter hs' 5 [] = [InCall (Some (pt 30 25)) 2 1]
         \<and> hoverExit hs' 5 [] = [OutCall])"
  using attachEvent_hover_callbacks[of "[[0, 1, 2], [3, 4, 5]]"
      "[[pt 10 50, pt 20 40, pt 30 30], [pt 10 45, pt 20 35, pt 30 25]]" 1 2
      "makeOutDotStyle 0 None" logIn logOut "\<lambda>_. []" "[]"]
  by (simp add: congruent_def hoverEnter_def hoverExit_def logIn_def logOut_def)

text \<open>
  C7. With one colour per group, \<^verbatim>\<open>renderDots\<close> returns a table of dots congruent with
  \<^verbatim>\<open>groupPositions\<close>, also when groups differ in length or are empty. The dot at group \<open>g\<close>,
  point \<open>i\<close> is a circle of radius 3 centred at \<open>groupPositions[g][i]\<close>, filled with
  \<open>colors[g]\<close>, with fill-opacity 0 and stroke-opacity 0, and the dots are separate elements.
\<close>

theorem renderDots_congruent:
  assumes "length colors = length groupPositions"
  shows "congruent (fst (renderDots groupPositions colors p)) groupPositions
       \<and> (\<forall>g < length groupPositions. \<forall>i < length (groupPositions ! g).
            elems (snd (renderDots groupPositions colors p))
                  (fst (renderDots groupPositions colors p) ! g ! i)
              = renderedDotAttrs (groupPositions ! g ! i) (Str (colors ! g)))
       \<and> distinct (concat (fst (renderDots groupPositions colors p)))"
proof -
  obtain dotss p' where run: "renderDots groupPositions colors p = (dotss, p')"
    by (cases "renderDots groupPositions colors p")
  then have m: "mapFrom (\<lambda>positions gIdx.
             mapFrom (\<lambda>pos _. renderDot pos
               (case js_nth colors gIdx of None \<Rightarrow> Undefined | Some c \<Rightarrow> Str c)) positions 0)
           groupPositions 0 p = (dotss, p')"
    by (simp add: renderDots_def util_map_eq)
  note r = mapFrom_renderDots[OF m]
  have col: "\<And>g. g < length groupPositions \<Longrightarrow>
      (case js_nth colors g of None \<Rightarrow> Undefined | Some c \<Rightarrow> Str c) = Str (colors ! g)"
    using assms by (simp add: js_nth_def)
  show ?thesis
    using r col run by (simp add: congruent_def)
qed

theorem renderDots_congruent_witness:
  "length [''#f00'', ''#0f0'', ''#00f''] = length ragged_positions
   \<and> map length (fst (renderDots ragged_positions [''#f00'', ''#0f0'', ''#00f''] blank_paper))
       = [2, 0, 3]
   \<and> congruent (fst (renderDots ragged_positions [''#f00'', ''#0f0'', ''#00f''] blank_paper))
       ragged_positions
   \<and> elems (snd (renderDots ragged_positions [''#f00'', ''#0f0'', ''#00f''] blank_paper))
        (fst (renderDots ragged_positions [''#f00'', ''#0f0'', ''#00f''] blank_paper) ! 2 ! 1)
       = renderedDotAttrs (pt 20 35) (Str ''#00f'')"
proof -
  have len: "length [''#f00'', ''#0f0'', ''#00f''] = length ragged_positions"
    by (simp add: ragged_positions_def)
  have shape: "map length ragged_positions = [2, 0, 3]"
    and cell: "ragged_positions ! 2 ! 1 = pt 20 35"
    and idx: "length ragged_positions = 3" "(1::nat) < length (ragged_positions ! 2)"
    by (simp_all add: ragged_positions_def)
  show ?thesis
    using renderDots_congruent[OF len, of blank_paper] shape cell idx
    by (simp add: congruent_def)
qed

text \<open>
  C8. \<^verbatim>\<open>makeOutDotStyle(opacity, undefined)\<close> is exactly the base set: fill-opacity
  \<open>opacity\<close>, stroke-opacity 0, r 3. With a border style, every field of the border style is
  in the result with the border style's value, and every other field has its base value.
\<close>

theorem makeOutDotStyle_base_and_merge:
  "makeOutDotStyle opacity None =
     [''fill-opacity'' \<mapsto> Num opacity, ''stroke-opacity'' \<mapsto> Num 0, ''r'' \<mapsto> Num 3]
   \<and> makeOutDotStyle opacity (Some b) k =
       (case b k of Some v \<Rightarrow> Some v | None \<Rightarrow> makeOutDotStyle opacity None k)"
  by (simp add: makeOutDotStyle_def util_extend_def DEFAULT_DOT_WIDTH_def map_add_def
      split: option.splits)

text \<open>
  C9. With the path maker \<^verbatim>\<open>raphaelRenderUtil.makeLinePath\<close> as the spec describes it, for
  all positions \<open>A\<close> and \<open>B\<close>, \<^verbatim>\<open>makeLinePath(A, B)\<close> returns a pair whose \<^verbatim>\<open>start\<close> is the
  path from \<open>A\<close> to \<open>A\<close>, with both endpoints \<open>A\<close> and length zero, and whose \<^verbatim>\<open>end\<close> is the
  path from \<open>A\<close> to \<open>B\<close>, which is of length zero only when \<open>A = B\<close>. The result does not
  depend on the instance state, which is left as it was.
\<close>

theorem makeLinePath_start_end:
  "fst (makeLinePath raphaelRenderUtil_makeLinePath A B s) =
     \<lparr>start = LinePath A A, end' = LinePath A B\<rparr>
   \<and> pathFrom (start (fst (makeLinePath raphaelRenderUtil_makeLinePath A B s))) = A
   \<and> pathTo (start (fst (makeLinePath raphaelRenderUtil_makeLinePath A B s))) = A
   \<and> pathLength (start (fst (makeLinePath raphaelRenderUtil_makeLinePath A B s))) = 0
   \<and> pathFrom (end' (fst (makeLinePath raphaelRenderUtil_makeLinePath A B s))) = A
   \<and> pathTo (end' (fst (makeLinePath raphaelRenderUtil_makeLinePath A B s))) = B
   \<and> (pathLength (end' (fst (makeLinePath raphaelRenderUtil_makeLinePath A B s))) = 0
        \<longleftrightarrow> A = B)
   \<and> snd (makeLinePath raphaelRenderUtil_makeLinePath A B s) = s"
proof -
  have run: "makeLinePath raphaelRenderUtil_makeLinePath A B s =
      (\<lparr>start = LinePath A A, end' = LinePath A B\<rparr>, s)"
    by (simp add: makeLinePath_any_maker raphaelRenderUtil_makeLinePath_def)
  have zero: "pathLength (LinePath A A) = 0"
    by (simp add: pathLength_def)
  have len: "pathLength (LinePath A B) = 0 \<longleftrightarrow> A = B"
    by (rule pathLength_zero_iff)
  show ?thesis
    using run zero len by simp
qed

text \<open>
  C10. \<^verbatim>\<open>_getCenter\<close> returns the position whose coordinates are \<open>(a1 + b1) / 2\<close> and
  \<open>(a2 + b2) / 2\<close>, for any number type with an addition, a division and a numeral 2; the
  result does not depend on the instance state, which is left as it was.
\<close>

theorem getCenter_midpoint:
  "getCenter \<lparr>left = a1, top' = a2\<rparr> \<lparr>left = b1, top' = b2\<rparr> s =
     (\<lparr>left = (a1 + b1) / 2, top' = (a2 + b2) / 2\<rparr>, s)"
  by (simp add: getCenter_def)

end
